theory Spec2Isabelle
  imports Complex_Main "HOL-Library.Sublist"
begin

section \<open>Errors\<close>

text \<open>
  The Python exceptions that the modelled functions can raise. A function that may raise
  returns \<open>error + 'a\<close>, with \<open>Inl\<close> carrying the exception.
\<close>

datatype error =
  ZeroDivisionError | IndexError | ValueError string | OSError | EmptyBatch | ShapeMismatch

section \<open>classes/evaluator.py\<close>

subsection \<open>The matching loops of \<open>get_f1_from_components_sequences\<close>\<close>

text \<open>
  \<open>TagComponent.is_equal\<close> lives outside the two source files; it is a parameter
  \<open>is_equal\<close> of the model, called as \<open>is_equal self other match_alpha_ratio\<close>.
  Counters are Python integers, hence \<open>int\<close>. The loop state is the triple
  \<open>(TP, FN, FP)\<close>, in the order of the assignment \<open>TP, FN, FP = 0, 0, 0\<close>.
\<close>

text \<open>Lines 29-33: the flag \<open>found\<close> after scanning the predicted spans for one gold span.\<close>

fun found_output :: "('c \<Rightarrow> 'c \<Rightarrow> 'r \<Rightarrow> bool) \<Rightarrow> 'r \<Rightarrow> 'c \<Rightarrow> 'c list \<Rightarrow> bool" where
  "found_output is_equal ratio target_tc [] = False"
| "found_output is_equal ratio target_tc (output_tc # rest) =
     (if is_equal output_tc target_tc ratio then True
      else found_output is_equal ratio target_tc rest)"

text \<open>Lines 39-43: the flag \<open>found\<close> after scanning the gold spans for one predicted span.\<close>

fun found_target :: "('c \<Rightarrow> 'c \<Rightarrow> 'r \<Rightarrow> bool) \<Rightarrow> 'r \<Rightarrow> 'c \<Rightarrow> 'c list \<Rightarrow> bool" where
  "found_target is_equal ratio output_tc [] = False"
| "found_target is_equal ratio output_tc (target_tc # rest) =
     (if is_equal target_tc output_tc ratio then True
      else found_target is_equal ratio output_tc rest)"

text \<open>Lines 28-37: the loop over the gold spans of one sequence, updating \<open>TP\<close> and \<open>FN\<close>.\<close>

fun count_targets ::
  "('c \<Rightarrow> 'c \<Rightarrow> 'r \<Rightarrow> bool) \<Rightarrow> 'r \<Rightarrow> 'c list \<Rightarrow> 'c list \<Rightarrow> int \<times> int \<Rightarrow> int \<times> int" where
  "count_targets is_equal ratio [] outputs (TP, FN) = (TP, FN)"
| "count_targets is_equal ratio (target_tc # rest) outputs (TP, FN) =
     (if found_output is_equal ratio target_tc outputs
      then count_targets is_equal ratio rest outputs (TP + 1, FN)
      else count_targets is_equal ratio rest outputs (TP, FN + 1))"

text \<open>Lines 38-45: the loop over the predicted spans of one sequence, updating \<open>FP\<close>.\<close>

fun count_outputs ::
  "('c \<Rightarrow> 'c \<Rightarrow> 'r \<Rightarrow> bool) \<Rightarrow> 'r \<Rightarrow> 'c list \<Rightarrow> 'c list \<Rightarrow> int \<Rightarrow> int" where
  "count_outputs is_equal ratio targets [] FP = FP"
| "count_outputs is_equal ratio targets (output_tc # rest) FP =
     (if \<not> found_target is_equal ratio output_tc targets
      then count_outputs is_equal ratio targets rest (FP + 1)
      else count_outputs is_equal ratio targets rest FP)"

text \<open>
  Lines 27-45: the loop over \<open>zip(targets, outputs)\<close>; \<open>zip\<close> stops as soon as either
  corpus is exhausted.
\<close>

fun count_sequences ::
  "('c \<Rightarrow> 'c \<Rightarrow> 'r \<Rightarrow> bool) \<Rightarrow> 'r \<Rightarrow> 'c list list \<Rightarrow> 'c list list \<Rightarrow> int \<times> int \<times> int
     \<Rightarrow> int \<times> int \<times> int" where
  "count_sequences is_equal ratio [] outputs_seqs acc = acc"
| "count_sequences is_equal ratio (targets # ts) [] acc = acc"
| "count_sequences is_equal ratio (targets # ts) (outputs # os) (TP, FN, FP) =
     (case count_targets is_equal ratio targets outputs (TP, FN) of
        (TP', FN') \<Rightarrow>
          count_sequences is_equal ratio ts os
            (TP', FN', count_outputs is_equal ratio targets outputs FP))"

subsection \<open>The rates\<close>

text \<open>
  Python's \<open>/\<close> on integers is true division: it raises \<open>ZeroDivisionError\<close> on a zero
  divisor and otherwise yields a float, idealised here as a real number.
\<close>

definition py_truediv :: "int \<Rightarrow> int \<Rightarrow> error + real" where
  "py_truediv a b = (if b = 0 then Inl ZeroDivisionError else Inr (real_of_int a / real_of_int b))"

text \<open>Lines 46-49, from the final loop state to the returned tuple.\<close>

definition f1_from_counters :: "int \<times> int \<times> int \<Rightarrow> error + real \<times> real \<times> real \<times> (int \<times> int \<times> int)" where
  "f1_from_counters c =
     (case c of (TP, FN, FP) \<Rightarrow>
        (case py_truediv TP (max (TP + FP) 1) of
           Inl e \<Rightarrow> Inl e
         | Inr p \<Rightarrow>
             (case py_truediv TP (max (TP + FN) 1) of
                Inl e \<Rightarrow> Inl e
              | Inr rc \<Rightarrow>
                  (case py_truediv (2 * TP) (max (2 * TP + FP + FN) 1) of
                     Inl e \<Rightarrow> Inl e
                   | Inr f \<Rightarrow> Inr (f * 100, p * 100, rc * 100, (TP, FP, FN))))))"

definition get_f1_from_components_sequences ::
  "('c \<Rightarrow> 'c \<Rightarrow> 'r \<Rightarrow> bool) \<Rightarrow> 'c list list \<Rightarrow> 'c list list \<Rightarrow> 'r
     \<Rightarrow> error + real \<times> real \<times> real \<times> (int \<times> int \<times> int)" where
  "get_f1_from_components_sequences is_equal targets_tag_components_sequences
       outputs_tag_components_sequences match_alpha_ratio =
     f1_from_counters
       (count_sequences is_equal match_alpha_ratio targets_tag_components_sequences
          outputs_tag_components_sequences (0, 0, 0))"

text \<open>
  An instance of \<open>is_equal\<close> for the concrete examples: two spans are equal when they are
  the same span (label and surface text identical), whatever the ratio.
\<close>

definition same_span :: "string \<times> string \<Rightarrow> string \<times> string \<Rightarrow> real \<Rightarrow> bool" where
  "same_span a b ratio = (a = b)"

subsection \<open>\<open>write_text_report\<close>\<close>

text \<open>
  Python's \<open>s.replace(old, new)\<close>: the occurrences of \<open>old\<close> are found from left to right,
  without overlap, and each is replaced by \<open>new\<close>. With an empty \<open>old\<close>, \<open>new\<close> is put
  before every character and at the end.
\<close>

function py_replace :: "string \<Rightarrow> string \<Rightarrow> string \<Rightarrow> string" where
  "py_replace s [] new = new @ concat (map (\<lambda>c. c # new) s)"
| "py_replace [] (a # old) new = []"
| "py_replace (c # cs) (a # old) new =
     (if prefix (a # old) (c # cs)
      then new @ py_replace (drop (length (a # old)) (c # cs)) (a # old) new
      else c # py_replace cs (a # old) new)"
  by pat_completeness auto
termination
  by (relation "measure (\<lambda>(s, old, new). length s)") auto

text \<open>
  Python's \<open>s.split(sep)\<close>: \<open>s\<close> is cut at each occurrence of \<open>sep\<close>, found from left to
  right; \<open>piece\<close> holds the characters read since the last cut. An empty separator raises
  \<open>ValueError\<close>.
\<close>

function split_from :: "string \<Rightarrow> string \<Rightarrow> string \<Rightarrow> string list" where
  "split_from [] sep piece = [piece]"
| "split_from (c # cs) sep piece =
     (if sep \<noteq> [] \<and> prefix sep (c # cs)
      then piece # split_from (drop (length sep) (c # cs)) sep []
      else split_from cs sep (piece @ [c]))"
  by pat_completeness auto
termination
  by (relation "measure (\<lambda>(s, sep, piece). length s)") auto

definition py_split :: "string \<Rightarrow> string \<Rightarrow> error + string list" where
  "py_split s sep = (if sep = [] then Inl (ValueError ''empty separator'') else Inr (split_from s sep []))"

text \<open>Python's \<open>sep.join(pieces)\<close>.\<close>

fun py_join :: "string \<Rightarrow> string list \<Rightarrow> string" where
  "py_join sep [] = []"
| "py_join sep [x] = x"
| "py_join sep (x # y # ys) = x @ sep @ py_join sep (y # ys)"

text \<open>
  The text of \<open>str(args)\<close> for an \<open>argparse.Namespace\<close> whose entries print as the given
  strings (\<open>name=repr(value)\<close>): the entries joined by a comma and a space, between
  \<open>Namespace(\<close> and \<open>)\<close>.
\<close>

definition namespace_str :: "string list \<Rightarrow> string" where
  "namespace_str entries = ''Namespace('' @ py_join '', '' entries @ '')''"

text \<open>
  The files written so far, by name, and the answers of the operating system: the names
  that \<open>open(fn, mode='w')\<close> accepts (it raises \<open>OSError\<close> on the others: an empty name, a
  missing directory, no permission), and the writes that succeed, given the name and the
  text to write (the others raise \<open>OSError\<close>: a full disk).
\<close>

type_synonym files = "string \<rightharpoonup> string"

record os =
  openable :: "string \<Rightarrow> bool"
  writable :: "string \<Rightarrow> string \<Rightarrow> bool"

text \<open>
  A call that raises leaves the files as they were at the raise: the result is then the
  exception and those files.
\<close>

type_synonym io_result = "error \<times> files + files"

text \<open>\<open>open(fn, mode='w')\<close> creates the file or empties it.\<close>

definition open_w :: "os \<Rightarrow> files \<Rightarrow> string \<Rightarrow> io_result" where
  "open_w sys fs fn = (if openable sys fn then Inr (fs(fn \<mapsto> [])) else Inl (OSError, fs))"

text \<open>\<open>text_file.write(text)\<close> appends to the file.\<close>

definition file_write :: "os \<Rightarrow> files \<Rightarrow> string \<Rightarrow> string \<Rightarrow> io_result" where
  "file_write sys fs fn text =
     (if writable sys fn text
      then Inr (fs(fn \<mapsto> (case fs fn of None \<Rightarrow> [] | Some old \<Rightarrow> old) @ text))
      else Inl (OSError, fs))"

text \<open>Lines 54-55: one \<open>write\<close> of \<open>'%s\n' % hyper_param\<close> for each piece.\<close>

fun write_hyper_params :: "os \<Rightarrow> files \<Rightarrow> string \<Rightarrow> string list \<Rightarrow> io_result" where
  "write_hyper_params sys fs fn [] = Inr fs"
| "write_hyper_params sys fs fn (hyper_param # rest) =
     (case file_write sys fs fn (hyper_param @ [CHR 0x0A]) of
        Inl e \<Rightarrow> Inl e
      | Inr fs' \<Rightarrow> write_hyper_params sys fs' fn rest)"

text \<open>
  Lines 52-57, on the text \<open>args_str\<close> of \<open>str(args)\<close>: the file is opened first, then
  the text is cleaned and cut, each piece is written, and the scores string last.
\<close>

definition write_text_report :: "os \<Rightarrow> files \<Rightarrow> string \<Rightarrow> string \<Rightarrow> string \<Rightarrow> io_result" where
  "write_text_report sys fs fn args_str scores_report_str =
     (case open_w sys fs fn of
        Inl e \<Rightarrow> Inl e
      | Inr opened \<Rightarrow>
          (case py_split (py_replace (py_replace args_str ''Namespace('' []) '')'' []) '', '' of
             Inl e \<Rightarrow> Inl (e, opened)
           | Inr hyper_params \<Rightarrow>
               (case write_hyper_params sys opened fn hyper_params of
                  Inl e \<Rightarrow> Inl e
                | Inr written \<Rightarrow> file_write sys written fn scores_report_str)))"

text \<open>
  An operating system for the concrete examples: every name but the empty one can be
  opened, every write succeeds.
\<close>

definition willing_os :: os where
  "willing_os = \<lparr>openable = (\<lambda>fn. fn \<noteq> []), writable = (\<lambda>fn text. True)\<rparr>"

section \<open>models/tagger_birnn_crf.py\<close>

subsection \<open>Construction\<close>

text \<open>
  The recurrent layer chosen by \<open>__init__\<close> (lines 34-43), with the arguments of its
  constructor: \<open>input_dim\<close>, \<open>hidden_dim\<close>, \<open>gpu\<close>.
\<close>

datatype birnn_layer = LayerBiGRU nat int int | LayerBiLSTM nat int int

text \<open>The attributes that lines 25-43 set on the new object.\<close>

record tagger_attributes =
  class_num :: int
  rnn_hidden_dim :: int
  freeze_embeddings :: bool
  dropout_ratio :: real
  rnn_type :: string
  gpu :: int
  birnn_layer :: birnn_layer

text \<open>
  Lines 24-43 of \<open>__init__\<close>. The base class, the embedding layer and the dropout layer
  are built first (lines 24-33) by code outside the two source files; the parameter
  \<open>word_embeddings_layer\<close> is the outcome of that part: the \<open>output_dim\<close> of the
  embedding layer, or the exception raised on the way. The layers of lines 44-48 are
  built after the choice of the recurrent cell and are not part of the model.
\<close>

definition TaggerBiRNNCRF_init ::
  "error + nat \<Rightarrow> int \<Rightarrow> int \<Rightarrow> bool \<Rightarrow> real \<Rightarrow> string \<Rightarrow> int \<Rightarrow> error + tagger_attributes" where
  \<open>TaggerBiRNNCRF_init word_embeddings_layer class_num' rnn_hidden_dim' freeze_word_embeddings
       dropout_ratio' rnn_type' gpu' =
     (case word_embeddings_layer of
        Inl e \<Rightarrow> Inl e
      | Inr output_dim \<Rightarrow>
          (if rnn_type' = ''GRU'' then
             Inr \<lparr>class_num = class_num', rnn_hidden_dim = rnn_hidden_dim',
                  freeze_embeddings = freeze_word_embeddings, dropout_ratio = dropout_ratio',
                  rnn_type = rnn_type', gpu = gpu',
                  birnn_layer = LayerBiGRU output_dim rnn_hidden_dim' gpu'\<rparr>
           else if rnn_type' = ''LSTM'' then
             Inr \<lparr>class_num = class_num', rnn_hidden_dim = rnn_hidden_dim',
                  freeze_embeddings = freeze_word_embeddings, dropout_ratio = dropout_ratio',
                  rnn_type = rnn_type', gpu = gpu',
                  birnn_layer = LayerBiLSTM output_dim rnn_hidden_dim' gpu'\<rparr>
           else Inl (ValueError ''Unknown rnn_type = %s, must be either "LSTM" or "GRU"'')))\<close>

subsection \<open>Reordering by length\<close>

text \<open>The place of the first occurrence of \<open>x\<close> in a list (its length when there is none).\<close>

fun position :: "'a \<Rightarrow> 'a list \<Rightarrow> nat" where
  "position x [] = 0"
| "position x (y # ys) = (if x = y then 0 else Suc (position x ys))"

text \<open>
  Modelled from the spec: \<open>argsort_sequences_by_lens\<close> of \<open>classes/utils.py\<close> is missing
  from the source files. The spec's LengthBucketer returns a permutation \<open>sort_idx\<close> such
  that the sequences ordered by it are non-increasing in length, ties keeping their input
  order, and the inverse permutation \<open>restore_idx\<close>. \<open>sort_key\<close> is a stable insertion
  sort.
\<close>

definition argsort_sequences_by_lens :: "'a list list \<Rightarrow> nat list \<times> nat list" where
  "argsort_sequences_by_lens list_in =
     (let sort_indices = sort_key (\<lambda>i. - int (length (list_in ! i))) [0..<length list_in];
          reverse_sort_indices = map (\<lambda>j. position j sort_indices) [0..<length list_in]
      in (sort_indices, reverse_sort_indices))"

text \<open>
  Modelled from the spec: \<open>DatasetsBank.get_sequences_by_indices\<close> of
  \<open>classes/datasets_bank.py\<close> is missing from the source files. The spec applies an index
  list to a list of sequences: the result holds \<open>sequences[i]\<close> for each \<open>i\<close> of the
  index list, in that order; reading past the end raises \<open>IndexError\<close>.
\<close>

fun get_sequences_by_indices :: "'a list \<Rightarrow> nat list \<Rightarrow> error + 'a list" where
  "get_sequences_by_indices sequences [] = Inr []"
| "get_sequences_by_indices sequences (i # indices) =
     (if i < length sequences then
        (case get_sequences_by_indices sequences indices of
           Inl e \<Rightarrow> Inl e
         | Inr rest \<Rightarrow> Inr (sequences ! i # rest))
      else Inl IndexError)"

subsection \<open>Prediction\<close>

text \<open>
  The parts of the model that prediction calls and that live outside the two source
  files are fields of the record: the mask builder, the network up to the linear layer
  (\<open>_forward_birnn\<close>, in evaluation mode), the masking of the features, Viterbi decoding
  and the translation of indices into tags. \<open>'w\<close> is the type of words, \<open>'f\<close> of feature
  tensors, \<open>'m\<close> of masks, \<open>'t\<close> of tags.
\<close>

record ('w, 'f, 'm, 't) tagger =
  batch_size :: int
  get_mask :: "'w list list \<Rightarrow> 'm"
  forward_birnn :: "'w list list \<Rightarrow> 'f"
  apply_mask :: "'f \<Rightarrow> 'm \<Rightarrow> 'f"
  decode_viterbi :: "'f \<Rightarrow> 'm \<Rightarrow> nat list list"
  idx2items :: "nat list list \<Rightarrow> 't list list"

text \<open>Lines 70-72: mask, masked features and decoding of one (already sorted) batch.\<close>

definition decode_batch :: "('w, 'f, 'm, 't) tagger \<Rightarrow> 'w list list \<Rightarrow> nat list list" where
  "decode_batch m word_sequences =
     (let mask = get_mask m word_sequences;
          features_rnn_compressed = apply_mask m (forward_birnn m word_sequences) mask
      in decode_viterbi m features_rnn_compressed mask)"

text \<open>Lines 66-74.\<close>

definition predict_idx_from_words ::
  "('w, 'f, 'm, 't) tagger \<Rightarrow> 'w list list \<Rightarrow> error + nat list list" where
  "predict_idx_from_words m word_sequences =
     (case argsort_sequences_by_lens word_sequences of
        (sort_indices, reverse_sort_indices) \<Rightarrow>
          (case get_sequences_by_indices word_sequences sort_indices of
             Inl e \<Rightarrow> Inl e
           | Inr sorted_sequences \<Rightarrow>
               get_sequences_by_indices (decode_batch m sorted_sequences) reverse_sort_indices))"

text \<open>
  Python's slice \<open>xs[i:j]\<close>: a negative bound counts from the end, and bounds are clamped
  to the list.
\<close>

definition py_slice :: "'a list \<Rightarrow> int \<Rightarrow> int \<Rightarrow> 'a list" where
  "py_slice xs i j =
     (let n = int (length xs);
          i' = (if i < 0 then max (i + n) 0 else min i n);
          j' = (if j < 0 then max (j + n) 0 else min j n)
      in drop (nat i') (take (nat j') xs))"

text \<open>Lines 77-78: the batch size in force.\<close>

definition effective_batch_size :: "('w, 'f, 'm, 't) tagger \<Rightarrow> int \<Rightarrow> int" where
  "effective_batch_size m batch_size' = (if batch_size' = - 1 then batch_size m else batch_size')"

text \<open>
  Line 80: \<open>math.floor(len(word_sequences) / batch_size)\<close>, a true division followed by
  \<open>floor\<close>; the division raises on a zero batch size.
\<close>

definition batch_num_of :: "'a list \<Rightarrow> int \<Rightarrow> error + int" where
  "batch_num_of word_sequences batch_size' =
     (case py_truediv (int (length word_sequences)) batch_size' of
        Inl e \<Rightarrow> Inl e
      | Inr q \<Rightarrow> Inr \<lfloor>q\<rfloor>)"

text \<open>
  Lines 82-92: the loop over \<open>range(batch_num)\<close>, given the values of \<open>n\<close> still to run and
  the tag sequences gathered so far. The progress line printed at each round is left out.
\<close>

fun predict_batches ::
  "('w, 'f, 'm, 't) tagger \<Rightarrow> 'w list list \<Rightarrow> int \<Rightarrow> int \<Rightarrow> int list \<Rightarrow> 't list list
     \<Rightarrow> error + 't list list" where
  "predict_batches m word_sequences batch_size' batch_num [] output_tag_sequences =
     Inr output_tag_sequences"
| "predict_batches m word_sequences batch_size' batch_num (n # ns) output_tag_sequences =
     (let i = n * batch_size';
          j = (if n < batch_num - 1 then (n + 1) * batch_size' else int (length word_sequences))
      in case predict_idx_from_words m (py_slice word_sequences i j) of
           Inl e \<Rightarrow> Inl e
         | Inr curr_output_idx \<Rightarrow>
             predict_batches m word_sequences batch_size' batch_num ns
               (output_tag_sequences @ idx2items m curr_output_idx))"

text \<open>Lines 76-93. \<open>[0..batch_num - 1]\<close> is \<open>range(batch_num)\<close>, empty when \<open>batch_num \<le> 0\<close>.\<close>

definition predict_tags_from_words ::
  "('w, 'f, 'm, 't) tagger \<Rightarrow> 'w list list \<Rightarrow> int \<Rightarrow> error + 't list list" where
  "predict_tags_from_words m word_sequences batch_size' =
     (case batch_num_of word_sequences (effective_batch_size m batch_size') of
        Inl e \<Rightarrow> Inl e
      | Inr batch_num \<Rightarrow>
          predict_batches m word_sequences (effective_batch_size m batch_size') batch_num
            [0..batch_num - 1] [])"

text \<open>
  A tagger for the concrete examples: the mask is the list of lengths, the features are
  the words themselves, and decoding returns each masked row as it is.
\<close>

definition echo_tagger :: "(nat, nat list list, nat list, nat) tagger" where
  "echo_tagger =
     \<lparr>batch_size = 2,
      get_mask = map length,
      forward_birnn = (\<lambda>ws. ws),
      apply_mask = (\<lambda>f mask. map (\<lambda>(row, n). take n row) (zip f mask)),
      decode_viterbi = (\<lambda>f mask. f),
      idx2items = (\<lambda>idx. idx)\<rparr>"

subsection \<open>The loss\<close>

text \<open>
  Modelled from the spec: \<open>LayerCRF\<close> of \<open>layers/layer_crf.py\<close> is missing from the source
  files. The spec's LinearChainCRF owns a transition table over \<open>states_num\<close> states
  (\<open>transition_table ! i ! j\<close> is the score of going from tag \<open>i\<close> to tag \<open>j\<close>) and two
  reserved tags, the padding tag and the start tag that precedes position \<open>0\<close>. Scores
  are real numbers.
\<close>

record layer_crf =
  states_num :: nat
  pad_idx :: nat
  sos_idx :: nat
  transition_table :: "real list list"

text \<open>
  Modelled from the spec: the gold-path score of one sequence sums, over the valid
  positions only, the emission score of the gold tag and the transition score from the
  gold tag of the previous valid position (the start tag at the first one). A position is
  a row of emission scores, the gold tag and the mask bit.
\<close>

fun gold_path_from :: "layer_crf \<Rightarrow> nat \<Rightarrow> (real list \<times> nat \<times> bool) list \<Rightarrow> real" where
  "gold_path_from crf prev [] = 0"
| "gold_path_from crf prev ((emission, tag, valid) # rest) =
     (if valid
      then emission ! tag + transition_table crf ! prev ! tag + gold_path_from crf tag rest
      else gold_path_from crf prev rest)"

definition gold_path_score :: "layer_crf \<Rightarrow> real list list \<Rightarrow> nat list \<Rightarrow> bool list \<Rightarrow> real" where
  "gold_path_score crf features gold_tags mask_row =
     gold_path_from crf (sos_idx crf) (zip features (zip gold_tags mask_row))"

text \<open>
  Modelled from the spec: alternatives are combined by log-sum-exp, the largest score
  taken out of the exponentials.
\<close>

fun largest :: "real list \<Rightarrow> real" where
  "largest [] = 0"
| "largest (x # xs) = fold max xs x"

definition log_sum_exp :: "real list \<Rightarrow> real" where
  "log_sum_exp xs = (let m = largest xs in m + ln (\<Sum>x \<leftarrow> xs. exp (x - m)))"

text \<open>
  Modelled from the spec: the forward algorithm keeps a running score for each tag. At a
  valid position the new score of tag \<open>j\<close> is the log-sum-exp, over the previous tags
  \<open>i\<close>, of the running score of \<open>i\<close> plus the transition score from \<open>i\<close> to \<open>j\<close> plus the
  emission score of \<open>j\<close>; at the first valid position the previous tag can only be the
  start tag. A position that is not valid leaves the running scores as they are. The
  running scores are \<open>None\<close> as long as no valid position has been read.
\<close>

definition first_scores :: "layer_crf \<Rightarrow> real list \<Rightarrow> real list" where
  "first_scores crf emission =
     map (\<lambda>j. transition_table crf ! sos_idx crf ! j + emission ! j) [0..<states_num crf]"

definition next_scores :: "layer_crf \<Rightarrow> real list \<Rightarrow> real list \<Rightarrow> real list" where
  "next_scores crf score emission =
     map (\<lambda>j. log_sum_exp
                (map (\<lambda>i. score ! i + transition_table crf ! i ! j + emission ! j)
                   [0..<states_num crf]))
       [0..<states_num crf]"

fun forward_from :: "layer_crf \<Rightarrow> real list option \<Rightarrow> (real list \<times> bool) list \<Rightarrow> real list option" where
  "forward_from crf score [] = score"
| "forward_from crf score ((emission, valid) # rest) =
     (if valid
      then forward_from crf
             (Some (case score of
                      None \<Rightarrow> first_scores crf emission
                    | Some s \<Rightarrow> next_scores crf s emission)) rest
      else forward_from crf score rest)"

text \<open>
  Modelled from the spec: the log partition function of one sequence is the log-sum-exp
  over all tags of the final running scores; a sequence without any valid position has
  the empty path only, of score \<open>0\<close>.
\<close>

fun final_score :: "real list option \<Rightarrow> real" where
  "final_score None = 0"
| "final_score (Some s) = log_sum_exp s"

definition log_partition :: "layer_crf \<Rightarrow> real list list \<Rightarrow> bool list \<Rightarrow> real" where
  "log_partition crf features mask_row =
     final_score (forward_from crf None (zip features mask_row))"

text \<open>
  Modelled from the spec: on a batch, the layer fails with \<open>EmptyBatch\<close> on zero sequences
  and with \<open>ShapeMismatch\<close> when the leading dimensions of features, tags and mask
  disagree; otherwise it returns one score for each sequence.
\<close>

definition numerator ::
  "layer_crf \<Rightarrow> real list list list \<Rightarrow> nat list list \<Rightarrow> bool list list \<Rightarrow> error + real list" where
  "numerator crf features_rnn targets_tensor mask_tensor =
     (if features_rnn = [] then Inl EmptyBatch
      else if length targets_tensor \<noteq> length features_rnn
              \<or> length mask_tensor \<noteq> length features_rnn
      then Inl ShapeMismatch
      else Inr (map (\<lambda>(f, t, k). gold_path_score crf f t k)
                  (zip features_rnn (zip targets_tensor mask_tensor))))"

definition denominator ::
  "layer_crf \<Rightarrow> real list list list \<Rightarrow> bool list list \<Rightarrow> error + real list" where
  "denominator crf features_rnn mask_tensor =
     (if features_rnn = [] then Inl EmptyBatch
      else if length mask_tensor \<noteq> length features_rnn then Inl ShapeMismatch
      else Inr (map (\<lambda>(f, k). log_partition crf f k) (zip features_rnn mask_tensor)))"

text \<open>\<open>torch.mean\<close> of a vector.\<close>

definition mean :: "real list \<Rightarrow> real" where
  "mean xs = sum_list xs / real (length xs)"

text \<open>
  Lines 57-64, for a tagger whose features are rows of real scores and whose mask is a
  matrix of truth values. The CRF layer and the padding of the gold tags into a tensor
  (\<open>tag_seq_indexer.items2tensor\<close>) are passed next to the tagger.
\<close>

definition get_loss ::
  "('w, real list list list, bool list list, 't) tagger \<Rightarrow> layer_crf \<Rightarrow> ('t list list \<Rightarrow> nat list list)
     \<Rightarrow> 'w list list \<Rightarrow> 't list list \<Rightarrow> error + real" where
  "get_loss m crf_layer items2tensor word_sequences_train_batch tag_sequences_train_batch =
     (let targets_tensor_train_batch = items2tensor tag_sequences_train_batch;
          mask = get_mask m word_sequences_train_batch;
          features_rnn = apply_mask m (forward_birnn m word_sequences_train_batch) mask
      in case numerator crf_layer features_rnn targets_tensor_train_batch mask of
           Inl e \<Rightarrow> Inl e
         | Inr num \<Rightarrow>
             (case denominator crf_layer features_rnn mask of
                Inl e \<Rightarrow> Inl e
              | Inr den \<Rightarrow> Inr (- mean (map (\<lambda>(a, b). a - b) (zip num den)))))"

text \<open>
  A layer and a tagger for the concrete example: one class, hence three states, all
  transition scores \<open>0\<close>; the features give score \<open>1\<close> to tag \<open>0\<close> at every position, and
  are set to \<open>0\<close> where the mask is false.
\<close>

definition flat_crf :: layer_crf where
  "flat_crf = \<lparr>states_num = 3, pad_idx = 1, sos_idx = 2,
               transition_table = [[0, 0, 0], [0, 0, 0], [0, 0, 0]]\<rparr>"

definition max_len :: "'a list list \<Rightarrow> nat" where
  "max_len seqs = fold max (map length seqs) 0"

definition flat_tagger :: "(nat, real list list list, bool list list, nat) tagger" where
  "flat_tagger =
     \<lparr>batch_size = 2,
      get_mask = (\<lambda>ws. map (\<lambda>w. map (\<lambda>t. t < length w) [0..<max_len ws]) ws),
      forward_birnn = (\<lambda>ws. map (\<lambda>w. replicate (max_len ws) [1, 0, 0]) ws),
      apply_mask = (\<lambda>f mask.
         map (\<lambda>(row, bits). map (\<lambda>(e, b). if b then e else [0, 0, 0]) (zip row bits)) (zip f mask)),
      decode_viterbi = (\<lambda>f mask. map (\<lambda>bits. replicate (length (filter id bits)) 0) mask),
      idx2items = (\<lambda>idx. idx)\<rparr>"

definition pad_tags :: "nat list list \<Rightarrow> nat list list" where
  "pad_tags tags = map (\<lambda>t. t @ replicate (max_len tags - length t) 1) tags"

section \<open>Properties of the evaluator\<close>

lemma found_output_iff:
  "found_output is_equal ratio t outs = (\<exists>oc \<in> set outs. is_equal oc t ratio)"
  by (induction outs) auto

lemma found_target_iff:
  "found_target is_equal ratio oc tgts = (\<exists>t \<in> set tgts. is_equal t oc ratio)"
  by (induction tgts) auto

lemma count_targets_eq:
  "count_targets is_equal ratio tgts outs (TP, FN) =
     (TP + int (length (filter (\<lambda>t. \<exists>oc \<in> set outs. is_equal oc t ratio) tgts)),
      FN + int (length (filter (\<lambda>t. \<not> (\<exists>oc \<in> set outs. is_equal oc t ratio)) tgts)))"
  by (induction tgts arbitrary: TP FN) (simp_all add: found_output_iff)

lemma count_outputs_eq:
  "count_outputs is_equal ratio tgts outs FP =
     FP + int (length (filter (\<lambda>oc. \<not> (\<exists>t \<in> set tgts. is_equal t oc ratio)) outs))"
  by (induction outs arbitrary: FP) (simp_all add: found_target_iff)

lemma count_sequences_eq:
  "count_sequences is_equal ratio g p (TP, FN, FP) =
     (TP + (\<Sum>(t, oc) \<leftarrow> zip g p. int (length (filter (\<lambda>tc. \<exists>x \<in> set oc. is_equal x tc ratio) t))),
      FN + (\<Sum>(t, oc) \<leftarrow> zip g p. int (length (filter (\<lambda>tc. \<not> (\<exists>x \<in> set oc. is_equal x tc ratio)) t))),
      FP + (\<Sum>(t, oc) \<leftarrow> zip g p. int (length (filter (\<lambda>x. \<not> (\<exists>tc \<in> set t. is_equal tc x ratio)) oc))))"
proof (induction g arbitrary: p TP FN FP)
  case Nil
  then show ?case by simp
next
  case (Cons t ts)
  show ?case
  proof (cases p)
    case Nil
    then show ?thesis by simp
  next
    case (Cons oc os)
    then show ?thesis
      by (simp add: count_targets_eq count_outputs_eq Cons.IH add.assoc)
  qed
qed

lemma f1_from_counters_eq:
  "f1_from_counters (TP, FN, FP) =
     Inr (100 * real_of_int (2 * TP) / real_of_int (max (2 * TP + FP + FN) 1),
          100 * real_of_int TP / real_of_int (max (TP + FP) 1),
          100 * real_of_int TP / real_of_int (max (TP + FN) 1),
          (TP, FP, FN))"
  by (simp add: f1_from_counters_def py_truediv_def max_def)

lemma count_sequences_nonneg:
  "count_sequences is_equal ratio g p (0, 0, 0) = (TP, FN, FP) \<Longrightarrow> 0 \<le> TP \<and> 0 \<le> FN \<and> 0 \<le> FP"
  by (auto simp: count_sequences_eq intro!: sum_list_nonneg)

lemma count_sequences_take:
  "count_sequences is_equal ratio g p acc =
   count_sequences is_equal ratio (take (min (length g) (length p)) g)
     (take (min (length g) (length p)) p) acc"
  by (induction is_equal ratio g p acc rule: count_sequences.induct) (auto split: prod.splits)

text \<open>
  C2. Over the zipped pairs of gold and predicted span lists, \<open>TP\<close> is the number of gold
  spans for which some predicted span of the same sequence \<open>is_equal\<close>s them, \<open>FN\<close> the
  number of the other gold spans, and \<open>FP\<close> the number of predicted spans that no gold
  span of the same sequence \<open>is_equal\<close>s. Every span is tested against the whole list
  of the other side, so nothing matched is ever removed.
\<close>

theorem get_f1_counts_nonexclusive:
  "\<exists>F1 Precision Recall.
     get_f1_from_components_sequences is_equal gold predicted ratio =
       Inr (F1, Precision, Recall,
         ((\<Sum>(t, oc) \<leftarrow> zip gold predicted.
             int (length (filter (\<lambda>tc. \<exists>x \<in> set oc. is_equal x tc ratio) t))),
          (\<Sum>(t, oc) \<leftarrow> zip gold predicted.
             int (length (filter (\<lambda>x. \<not> (\<exists>tc \<in> set t. is_equal tc x ratio)) oc))),
          (\<Sum>(t, oc) \<leftarrow> zip gold predicted.
             int (length (filter (\<lambda>tc. \<not> (\<exists>x \<in> set oc. is_equal x tc ratio)) t)))))"
  by (simp add: get_f1_from_components_sequences_def count_sequences_eq f1_from_counters_eq)

text \<open>
  The same at a concrete corpus: in the first sequence one predicted span satisfies two
  gold spans, in the second one gold span covers two predicted spans.
\<close>

theorem get_f1_counts_nonexclusive_witness:
  "\<exists>F1 Precision Recall.
     get_f1_from_components_sequences same_span
       [[(''PER'', ''john''), (''PER'', ''john''), (''LOC'', ''paris'')], [(''PER'', ''ann'')]]
       [[(''PER'', ''john''), (''LOC'', ''berlin'')], [(''PER'', ''ann''), (''PER'', ''ann'')]]
       1 = Inr (F1, Precision, Recall, (3, 1, 1))"
  using get_f1_counts_nonexclusive [of same_span
       "[[(''PER'', ''john''), (''PER'', ''john''), (''LOC'', ''paris'')], [(''PER'', ''ann'')]]"
       "[[(''PER'', ''john''), (''LOC'', ''berlin'')], [(''PER'', ''ann''), (''PER'', ''ann'')]]"
       1]
  by (simp add: same_span_def)

text \<open>
  C3. For every triple of non-negative counters the rates are
  \<open>Precision = 100 * TP / max (TP + FP) 1\<close>, \<open>Recall = 100 * TP / max (TP + FN) 1\<close> and
  \<open>F1 = 100 * 2 * TP / max (2 * TP + FP + FN) 1\<close>; the result is never an error, also when
  the counters come out of the matching loops; and a rate is \<open>0\<close> when \<open>TP\<close> and the other
  term of its denominator are both \<open>0\<close>.
\<close>

theorem f1_rates_formula:
  assumes "0 \<le> TP" and "0 \<le> FP" and "0 \<le> FN"
  shows "f1_from_counters (TP, FN, FP) =
           Inr (100 * real_of_int (2 * TP) / real_of_int (max (2 * TP + FP + FN) 1),
                100 * real_of_int TP / real_of_int (max (TP + FP) 1),
                100 * real_of_int TP / real_of_int (max (TP + FN) 1),
                (TP, FP, FN))
       \<and> (count_sequences is_equal ratio gold predicted (0, 0, 0) = (TP, FN, FP) \<longrightarrow>
            get_f1_from_components_sequences is_equal gold predicted ratio =
              Inr (100 * real_of_int (2 * TP) / real_of_int (max (2 * TP + FP + FN) 1),
                   100 * real_of_int TP / real_of_int (max (TP + FP) 1),
                   100 * real_of_int TP / real_of_int (max (TP + FN) 1),
                   (TP, FP, FN)))
       \<and> (TP = 0 \<and> FP = 0 \<longrightarrow>
            (\<exists>F1 Recall. f1_from_counters (TP, FN, FP) = Inr (F1, 0, Recall, (TP, FP, FN))))
       \<and> (TP = 0 \<and> FN = 0 \<longrightarrow>
            (\<exists>F1 Precision. f1_from_counters (TP, FN, FP) = Inr (F1, Precision, 0, (TP, FP, FN))))
       \<and> (TP = 0 \<and> FP + FN = 0 \<longrightarrow>
            (\<exists>Precision Recall. f1_from_counters (TP, FN, FP) = Inr (0, Precision, Recall, (TP, FP, FN))))"
  by (simp add: get_f1_from_components_sequences_def f1_from_counters_eq)

theorem f1_rates_formula_witness:
  "(0::int) \<le> 1 \<and> (0::int) \<le> 0
   \<and> count_sequences same_span 1 [[(''PER'', ''john''), (''LOC'', ''paris'')]]
         [[(''PER'', ''john'')]] (0, 0, 0) = (1, 1, 0)
   \<and> get_f1_from_components_sequences same_span [[(''PER'', ''john''), (''LOC'', ''paris'')]]
         [[(''PER'', ''john'')]] 1 = Inr (200 / 3, 100, 50, (1, 0, 1))
   \<and> f1_from_counters (0, 0, 0) = Inr (0, 0, 0, (0, 0, 0))"
proof -
  have c: "count_sequences same_span 1 [[(''PER'', ''john''), (''LOC'', ''paris'')]]
         [[(''PER'', ''john'')]] (0, 0, 0) = (1, 1, 0)"
    by (simp add: same_span_def)
  have a: "get_f1_from_components_sequences same_span [[(''PER'', ''john''), (''LOC'', ''paris'')]]
         [[(''PER'', ''john'')]] 1 = Inr (200 / 3, 100, 50, (1, 0, 1))"
    using f1_rates_formula [of 1 0 1 same_span 1 "[[(''PER'', ''john''), (''LOC'', ''paris'')]]"
         "[[(''PER'', ''john'')]]"] c
    by simp
  have z: "f1_from_counters (0, 0, 0) = Inr (0, 0, 0, (0, 0, 0))"
    using f1_rates_formula [of 0 0 0 same_span 1 "[]" "[]"] by simp
  show ?thesis using a c z by simp
qed

text \<open>
  C7. When the predicted corpus is the gold corpus and every gold span \<open>is_equal\<close> to itself
  at the given ratio, \<open>TP\<close> is the number of gold spans and \<open>FP = FN = 0\<close>. The three
  rates are \<open>100\<close> when the corpus has at least one span; on a corpus without spans the
  guard \<open>max (...) 1\<close> makes them \<open>0\<close>.
\<close>

theorem get_f1_identical_corpus:
  assumes "\<forall>seq \<in> set gold. \<forall>tc \<in> set seq. is_equal tc tc ratio"
  shows "get_f1_from_components_sequences is_equal gold gold ratio =
           (if concat gold = [] then Inr (0, 0, 0, (0, 0, 0))
            else Inr (100, 100, 100, (int (length (concat gold)), 0, 0)))"
proof -
  have all: "filter (\<lambda>tc. \<exists>x \<in> set seq. is_equal x tc ratio) seq = seq"
    if "\<forall>tc \<in> set seq. is_equal tc tc ratio" for seq
    using that by (auto simp: filter_id_conv)
  have tp: "(\<Sum>(t, oc) \<leftarrow> zip gold gold.
               int (length (filter (\<lambda>tc. \<exists>x \<in> set oc. is_equal x tc ratio) t)))
            = int (length (concat gold))"
    using assms by (induction gold) (simp_all add: all)
  have fn: "(\<Sum>(t, oc) \<leftarrow> zip gold gold.
               int (length (filter (\<lambda>tc. \<not> (\<exists>x \<in> set oc. is_equal x tc ratio)) t))) = 0"
    using assms by (induction gold) (auto simp: filter_empty_conv)
  have fp: "(\<Sum>(t, oc) \<leftarrow> zip gold gold.
               int (length (filter (\<lambda>x. \<not> (\<exists>tc \<in> set t. is_equal tc x ratio)) oc))) = 0"
    using assms by (induction gold) (auto simp: filter_empty_conv)
  have cnt: "count_sequences is_equal ratio gold gold (0, 0, 0) = (int (length (concat gold)), 0, 0)"
    using tp fn fp by (simp add: count_sequences_eq)
  show ?thesis
  proof (cases "concat gold = []")
    case True
    then show ?thesis
      by (simp add: get_f1_from_components_sequences_def cnt f1_from_counters_eq del: concat_eq_Nil_conv)
  next
    case False
    then have "0 < length (concat gold)" by blast
    then have "1 \<le> int (length (concat gold))" by linarith
    then show ?thesis using False
      by (simp add: get_f1_from_components_sequences_def cnt f1_from_counters_eq max_def
            del: concat_eq_Nil_conv)
  qed
qed

theorem get_f1_identical_corpus_witness:
  "same_span (''PER'', ''john smith'') (''PER'', ''john smith'') 1
   \<and> get_f1_from_components_sequences same_span [[(''PER'', ''john smith'')]]
        [[(''PER'', ''john smith'')]] 1 = Inr (100, 100, 100, (1, 0, 0))"
proof -
  have h: "\<forall>seq \<in> set [[(''PER'', ''john smith'')]]. \<forall>tc \<in> set seq. same_span tc tc 1"
    by (simp add: same_span_def)
  show ?thesis
    using h get_f1_identical_corpus [where is_equal = same_span and ratio = 1
        and gold = "[[(''PER'', ''john smith'')]]"]
    by simp
qed

text \<open>
  The claim as stated promises \<open>F1 = 100\<close> for every identical pair of corpora; a corpus of
  one sequence that holds no span gives \<open>F1 = 0\<close>.
\<close>

theorem get_f1_identical_corpus_counterexample:
  "get_f1_from_components_sequences same_span [[]] [[]] 1 = Inr (0, 0, 0, (0, 0, 0))
   \<and> get_f1_from_components_sequences same_span [[]] [[]] 1 \<noteq> Inr (100, 100, 100, (0, 0, 0))"
  by (simp add: get_f1_from_components_sequences_def f1_from_counters_eq)

text \<open>
  C10. Only the first \<open>min (length gold) (length predicted)\<close> pairs of sequences are scored:
  cutting both corpora to that length changes nothing in the result, so the trailing
  sequences of the longer corpus add nothing to \<open>TP\<close>, \<open>FP\<close> or \<open>FN\<close>.
\<close>

theorem get_f1_scores_common_prefix:
  "get_f1_from_components_sequences is_equal gold predicted ratio =
   get_f1_from_components_sequences is_equal
     (take (min (length gold) (length predicted)) gold)
     (take (min (length gold) (length predicted)) predicted) ratio"
  unfolding get_f1_from_components_sequences_def
  by (subst count_sequences_take) (rule refl)

section \<open>Properties of the tagger\<close>

lemma position_nth: "x \<in> set xs \<Longrightarrow> position x xs < length xs \<and> xs ! position x xs = x"
  by (induction xs) auto

lemma get_sequences_by_indices_map:
  "\<forall>i \<in> set indices. i < length sequences \<Longrightarrow>
   get_sequences_by_indices sequences indices = Inr (map ((!) sequences) indices)"
  by (induction indices) auto

lemma argsort_sort_indices:
  "set (fst (argsort_sequences_by_lens ws)) = {0..<length ws}"
  "length (fst (argsort_sequences_by_lens ws)) = length ws"
  by (simp_all add: argsort_sequences_by_lens_def Let_def)

lemma argsort_reverse_sort_indices:
  "snd (argsort_sequences_by_lens ws) =
     map (\<lambda>j. position j (fst (argsort_sequences_by_lens ws))) [0..<length ws]"
  by (simp add: argsort_sequences_by_lens_def Let_def)

lemma argsort_sorted_batch:
  "get_sequences_by_indices ws (fst (argsort_sequences_by_lens ws)) =
     Inr (map ((!) ws) (fst (argsort_sequences_by_lens ws)))"
  by (rule get_sequences_by_indices_map) (simp add: argsort_sort_indices)

lemma argsort_restore:
  assumes "length out = length ws"
  shows "get_sequences_by_indices out (snd (argsort_sequences_by_lens ws)) =
           Inr (map (\<lambda>j. out ! position j (fst (argsort_sequences_by_lens ws))) [0..<length ws])"
proof -
  let ?s = "fst (argsort_sequences_by_lens ws)"
  have "\<forall>i \<in> set (snd (argsort_sequences_by_lens ws)). i < length out"
    using assms position_nth [of _ ?s]
    by (auto simp: argsort_reverse_sort_indices argsort_sort_indices)
  then show ?thesis
    by (simp add: get_sequences_by_indices_map argsort_reverse_sort_indices comp_def)
qed

lemma argsort_round_trip:
  "map (\<lambda>j. map f (map ((!) ws) (fst (argsort_sequences_by_lens ws)))
               ! position j (fst (argsort_sequences_by_lens ws))) [0..<length ws] = map f ws"
proof -
  let ?s = "fst (argsort_sequences_by_lens ws)"
  have "map f (map ((!) ws) ?s) ! position j ?s = f (ws ! j)" if "j < length ws" for j
  proof -
    from that have "j \<in> set ?s" by (simp add: argsort_sort_indices)
    then have "position j ?s < length ?s" and "?s ! position j ?s = j"
      using position_nth by fastforce+
    then show ?thesis by simp
  qed
  then have "map (\<lambda>j. map f (map ((!) ws) ?s) ! position j ?s) [0..<length ws]
             = map (\<lambda>j. f (ws ! j)) [0..<length ws]"
    by simp
  also have "\<dots> = map f (map ((!) ws) [0..<length ws])" by (simp add: comp_def)
  also have "\<dots> = map f ws" by (simp add: map_nth)
  finally show ?thesis .
qed

lemma batch_num_of_div:
  "bs \<noteq> 0 \<Longrightarrow> batch_num_of ws bs = Inr (int (length ws) div bs)"
  using floor_divide_of_int_eq [of "int (length ws)" bs, where ?'a = real]
  by (simp add: batch_num_of_def py_truediv_def)

text \<open>
  C5. Ordering the input by \<open>sort_indices\<close> and then ordering the result of that by
  \<open>reverse_sort_indices\<close> gives back the input, whatever the lengths of the sequences
  (equal lengths included); so when decoding treats the sorted batch sequence by sequence,
  \<open>predict_idx_from_words\<close> returns the decoded sequences in the order of its input.
\<close>

theorem predict_idx_restores_order:
  "\<exists>sorted_sequences.
      get_sequences_by_indices ws (fst (argsort_sequences_by_lens ws)) = Inr sorted_sequences
    \<and> get_sequences_by_indices sorted_sequences (snd (argsort_sequences_by_lens ws)) = Inr ws
    \<and> (decode_batch m sorted_sequences = map f sorted_sequences \<longrightarrow>
          predict_idx_from_words m ws = Inr (map f ws))"
proof -
  let ?s = "fst (argsort_sequences_by_lens ws)"
  let ?sorted = "map ((!) ws) ?s"
  have len: "length ?sorted = length ws" by (simp add: argsort_sort_indices)
  have a: "get_sequences_by_indices ws ?s = Inr ?sorted" by (rule argsort_sorted_batch)
  have b: "get_sequences_by_indices ?sorted (snd (argsort_sequences_by_lens ws)) = Inr ws"
    using argsort_restore [OF len] argsort_round_trip [of "\<lambda>x. x" ws] by simp
  have c: "predict_idx_from_words m ws = Inr (map f ws)"
    if d: "decode_batch m ?sorted = map f ?sorted"
  proof -
    have "length (map f ?sorted) = length ws" by (simp add: argsort_sort_indices)
    from argsort_restore [OF this] argsort_round_trip [of f ws]
    have e: "get_sequences_by_indices (map f ?sorted) (snd (argsort_sequences_by_lens ws))
            = Inr (map f ws)"
      by simp
    have "predict_idx_from_words m ws =
            get_sequences_by_indices (decode_batch m ?sorted) (snd (argsort_sequences_by_lens ws))"
      by (simp add: predict_idx_from_words_def case_prod_beta a)
    with d e show ?thesis by (simp only:)
  qed
  from a b c show ?thesis by blast
qed

theorem predict_idx_restores_order_witness:
  "get_sequences_by_indices [[1], [1, 2, 3], [4, 5], [7::nat]]
       (fst (argsort_sequences_by_lens [[1], [1, 2, 3], [4, 5], [7::nat]]))
     = Inr [[1, 2, 3], [4, 5], [1], [7]]
   \<and> decode_batch echo_tagger [[1, 2, 3], [4, 5], [1], [7]] = map (\<lambda>x. x) [[1, 2, 3], [4, 5], [1], [7]]
   \<and> predict_idx_from_words echo_tagger [[1], [1, 2, 3], [4, 5], [7]]
     = Inr [[1], [1, 2, 3], [4, 5], [7]]"
proof -
  have s: "get_sequences_by_indices [[1], [1, 2, 3], [4, 5], [7::nat]]
       (fst (argsort_sequences_by_lens [[1], [1, 2, 3], [4, 5], [7::nat]]))
     = Inr [[1, 2, 3], [4, 5], [1], [7]]"
    by code_simp
  have d: "decode_batch echo_tagger [[1, 2, 3], [4, 5], [1], [7]]
             = map (\<lambda>x. x) [[1, 2, 3], [4, 5], [1], [7]]"
    by (simp add: decode_batch_def echo_tagger_def)
  show ?thesis
    using predict_idx_restores_order [of "[[1], [1, 2, 3], [4, 5], [7]]" echo_tagger "\<lambda>x. x"] s d
    by simp
qed

text \<open>
  C6. With an \<open>rnn_type\<close> other than \<open>GRU\<close> and \<open>LSTM\<close> the constructor returns no object:
  it raises, and when the layers built before the recurrent one raised nothing the
  exception is the \<open>ValueError\<close> of line 43.
\<close>

theorem init_unknown_rnn_type_raises:
  \<open>rnn_type' \<noteq> ''GRU'' \<Longrightarrow> rnn_type' \<noteq> ''LSTM'' \<Longrightarrow>
     (\<exists>e. TaggerBiRNNCRF_init word_embeddings_layer class_num' rnn_hidden_dim'
             freeze_word_embeddings dropout_ratio' rnn_type' gpu' = Inl e)
   \<and> TaggerBiRNNCRF_init (Inr output_dim) class_num' rnn_hidden_dim'
             freeze_word_embeddings dropout_ratio' rnn_type' gpu'
       = Inl (ValueError ''Unknown rnn_type = %s, must be either "LSTM" or "GRU"'')\<close>
  by (simp add: TaggerBiRNNCRF_init_def split: sum.splits)

theorem init_unknown_rnn_type_raises_witness:
  \<open>''gru'' \<noteq> ''GRU'' \<and> ''gru'' \<noteq> ''LSTM''
   \<and> TaggerBiRNNCRF_init (Inr 100) 5 100 False (1 / 2) ''gru'' (- 1)
       = Inl (ValueError ''Unknown rnn_type = %s, must be either "LSTM" or "GRU"'')\<close>
  using init_unknown_rnn_type_raises [of "''gru''" "Inr 100" 5 100 False "1 / 2" "- 1" 100]
  by simp

text \<open>
  C9. With a positive batch size in force and a non-empty input shorter than it, the
  number of batches is \<open>0\<close>, the loop body never runs and the result is the empty list.
\<close>

theorem predict_tags_short_input_empty:
  assumes "0 < effective_batch_size m batch_size'"
    and "word_sequences \<noteq> []"
    and "int (length word_sequences) < effective_batch_size m batch_size'"
  shows "batch_num_of word_sequences (effective_batch_size m batch_size') = Inr 0
       \<and> predict_tags_from_words m word_sequences batch_size' = Inr []"
proof -
  have "batch_num_of word_sequences (effective_batch_size m batch_size') = Inr 0"
    using assms by (simp add: batch_num_of_div)
  then show ?thesis by (simp add: predict_tags_from_words_def)
qed

theorem predict_tags_short_input_empty_witness:
  "0 < effective_batch_size echo_tagger (- 1)
   \<and> [[1, 2], [3::nat]] \<noteq> []
   \<and> int (length [[1, 2], [3::nat]]) < effective_batch_size echo_tagger 3
   \<and> batch_num_of [[1, 2], [3::nat]] (effective_batch_size echo_tagger 3) = Inr 0
   \<and> predict_tags_from_words echo_tagger [[1, 2], [3]] 3 = Inr []"
proof -
  have h: "0 < effective_batch_size echo_tagger 3"
    "int (length [[1, 2], [3::nat]]) < effective_batch_size echo_tagger 3"
    "0 < effective_batch_size echo_tagger (- 1)"
    by (simp_all add: effective_batch_size_def echo_tagger_def)
  show ?thesis
    using predict_tags_short_input_empty [of echo_tagger 3 "[[1, 2], [3]]"] h by simp
qed

text \<open>
  C1. The batch-splitting property fails on an input shorter than the batch size: one
  sequence predicted alone comes back, the same sequence under a batch size of \<open>2\<close>
  (given, or the tagger's own) is lost.
\<close>

theorem predict_tags_batch_size_changes_output:
  "predict_idx_from_words echo_tagger [[5, 6]] = Inr [[5, 6]]
   \<and> predict_tags_from_words echo_tagger [[5, 6]] 1 = Inr [[5, 6]]
   \<and> predict_tags_from_words echo_tagger [[5, 6]] 2 = Inr []
   \<and> predict_tags_from_words echo_tagger [[5, 6]] (- 1) = Inr []"
  by code_simp

section \<open>Properties of the report writer\<close>

lemma py_replace_absent:
  "a # old = p \<Longrightarrow> \<not> sublist p s \<Longrightarrow> py_replace s p new = s"
  by (induction s) (auto simp: sublist_Cons_right)

lemma py_replace_char:
  "py_replace s [c] [] = filter (\<lambda>x. x \<noteq> c) s"
  by (induction s) auto

lemma split_from_absent:
  "\<not> sublist sep s \<Longrightarrow> split_from s sep piece = [piece @ s]"
  by (induction s arbitrary: piece) (auto simp: sublist_Cons_right)

lemma split_from_piece:
  "a \<noteq> b \<Longrightarrow> \<not> sublist [a, b] e \<Longrightarrow>
   split_from (e @ a # b # rest) [a, b] piece = (piece @ e) # split_from rest [a, b] []"
proof (induction e arbitrary: piece)
  case Nil
  then show ?case by simp
next
  case (Cons c e)
  have np: "\<not> prefix [a, b] (c # e @ a # b # rest)"
  proof
    assume "prefix [a, b] (c # e @ a # b # rest)"
    then have ca: "c = a" and p: "prefix [b] (e @ a # b # rest)" by auto
    show False
    proof (cases e)
      case Nil
      with p Cons.prems show False by simp
    next
      case (Cons d e')
      with p have "d = b" by simp
      with ca Cons have "prefix [a, b] (c # e)" by simp
      with Cons.prems show False by (simp add: sublist_Cons_right)
    qed
  qed
  from Cons.prems have "\<not> sublist [a, b] e" by (simp add: sublist_Cons_right)
  from Cons.IH [OF Cons.prems(1) this, of "piece @ [c]"] np show ?case by simp
qed

lemma split_from_join:
  "a \<noteq> b \<Longrightarrow> entries \<noteq> [] \<Longrightarrow> \<forall>e \<in> set entries. \<not> sublist [a, b] e \<Longrightarrow>
   split_from (py_join [a, b] entries) [a, b] [] = entries"
proof (induction "[a, b]" entries rule: py_join.induct)
  case 1
  then show ?case by simp
next
  case (2 x)
  then show ?case by (simp add: split_from_absent)
next
  case (3 x y ys)
  then show ?case by (simp add: split_from_piece del: split_from.simps)
qed

lemma sublist_across_char:
  assumes "sublist p (a @ c # b)" and "c \<notin> set p"
  shows "sublist p a \<or> sublist p b"
  using assms 
  by (auto simp: sublist_append sublist_Cons_right prefix_Cons)

lemma sublist_join:
  assumes "sublist p (py_join [a, b] entries)" and "a \<notin> set p" and "b \<notin> set p"
  shows "p = [] \<or> (\<exists>e \<in> set entries. sublist p e)"
  using assms(1)
proof (induction "[a, b]" entries rule: py_join.induct)
  case 1
  then show ?case by simp
next
  case (2 x)
  then show ?case by simp
next
  case (3 x y ys)
  then have "sublist p (x @ a # (b # py_join [a, b] (y # ys)))" by simp
  from sublist_across_char [OF this assms(2)]
  have "sublist p x \<or> sublist p ([] @ b # py_join [a, b] (y # ys))" by simp
  then have "sublist p x \<or> sublist p [] \<or> sublist p (py_join [a, b] (y # ys))"
    using sublist_across_char [OF _ assms(3)] by blast
  with 3 show ?case by auto
qed


lemma py_replace_at_start:
  "py_replace ((a # old) @ rest) (a # old) new = new @ py_replace rest (a # old) new"
  by simp

lemma set_py_join: "set (py_join sep entries) \<subseteq> set sep \<union> \<Union> (set ` set entries)"
  by (induction sep entries rule: py_join.induct) auto

lemma write_hyper_params_eq:
  assumes "fs fn = Some old" and "\<forall>text. writable sys fn text"
  shows "write_hyper_params sys fs fn hs =
           Inr (fs(fn \<mapsto> old @ concat (map (\<lambda>h. h @ [CHR 0x0A]) hs)))"
  using assms
proof (induction hs arbitrary: fs old)
  case Nil
  then show ?case by (simp add: fun_upd_idem)
next
  case (Cons h hs)
  have fw: "file_write sys fs fn (h @ [CHR 0x0A]) = Inr (fs(fn \<mapsto> old @ h @ [CHR 0x0A]))"
    using Cons.prems by (simp add: file_write_def)
  have ih: "write_hyper_params sys (fs(fn \<mapsto> old @ h @ [CHR 0x0A])) fn hs =
          Inr ((fs(fn \<mapsto> old @ h @ [CHR 0x0A]))
                 (fn \<mapsto> (old @ h @ [CHR 0x0A]) @ concat (map (\<lambda>h. h @ [CHR 0x0A]) hs)))"
    using Cons.prems by (intro Cons.IH) simp_all
  have "write_hyper_params sys fs fn (h # hs) =
          write_hyper_params sys (fs(fn \<mapsto> old @ h @ [CHR 0x0A])) fn hs"
    by (simp only: write_hyper_params.simps fw sum.case)
  also note ih
  also have "(fs(fn \<mapsto> old @ h @ [CHR 0x0A]))
                 (fn \<mapsto> (old @ h @ [CHR 0x0A]) @ concat (map (\<lambda>h. h @ [CHR 0x0A]) hs))
             = fs(fn \<mapsto> old @ concat (map (\<lambda>h. h @ [CHR 0x0A]) (h # hs)))"
    by simp
  finally show ?case .
qed

lemma cleaned_namespace_str:
  assumes "\<forall>e \<in> set entries. CHR '')'' \<notin> set e \<and> \<not> sublist ''Namespace('' e"
  shows "py_replace (py_replace (namespace_str entries) ''Namespace('' []) '')'' []
           = py_join '', '' entries"
proof -
  let ?j = "py_join '', '' entries"
  have no: "\<not> sublist ''Namespace('' (?j @ '')'')"
  proof
    assume "sublist ''Namespace('' (?j @ '')'')"
    then have "sublist ''Namespace('' ?j \<or> sublist ''Namespace('' []"
      using sublist_across_char [of "''Namespace(''" ?j "CHR '')''" "[]"] by simp
    then have "sublist ''Namespace('' ?j" by simp
    from sublist_join [OF this] assms show False by simp
  qed
  have "py_replace (namespace_str entries) ''Namespace('' [] = py_replace (?j @ '')'') ''Namespace('' []"
    unfolding namespace_str_def by (subst py_replace_at_start) simp
  also have "\<dots> = ?j @ '')''"
    using no by (intro py_replace_absent [OF refl])
  finally have one: "py_replace (namespace_str entries) ''Namespace('' [] = ?j @ '')''" .
  have "CHR '')'' \<notin> set ?j"
    using set_py_join [of "'', ''" entries] assms by auto
  then have "filter (\<lambda>x. x \<noteq> CHR '')'') ?j = ?j" by (auto simp: filter_id_conv)
  then show ?thesis by (simp add: one py_replace_char)
qed

text \<open>
  On a namespace with at least one entry whose entries hold no comma followed by a space,
  no \<open>)\<close> and no \<open>Namespace(\<close>, and when the file opens and every write succeeds, the
  report is each entry on a line of its own, in order, followed by the scores string.
\<close>

lemma write_text_report_clean_entries:
  assumes "entries \<noteq> []"
    and "\<forall>e \<in> set entries. \<not> sublist '', '' e \<and> CHR '')'' \<notin> set e \<and> \<not> sublist ''Namespace('' e"
    and "openable sys fn" and "\<forall>text. writable sys fn text"
  shows "write_text_report sys fs fn (namespace_str entries) scores_report_str =
           Inr (fs(fn \<mapsto> concat (map (\<lambda>e. e @ [CHR 0x0A]) entries) @ scores_report_str))"
proof -
  have c: "py_replace (py_replace (namespace_str entries) ''Namespace('' []) '')'' []
           = py_join '', '' entries"
    using assms(2) by (intro cleaned_namespace_str) simp
  have "split_from (py_join '', '' entries) '', '' [] = entries"
    using assms(1,2) by (intro split_from_join) simp_all
  then have s: "py_split (py_join '', '' entries) '', '' = Inr entries"
    by (simp add: py_split_def)
  have o: "open_w sys fs fn = Inr (fs(fn \<mapsto> []))"
    using assms(3) by (simp add: open_w_def)
  have w: "write_hyper_params sys (fs(fn \<mapsto> [])) fn entries =
             Inr ((fs(fn \<mapsto> []))(fn \<mapsto> [] @ concat (map (\<lambda>h. h @ [CHR 0x0A]) entries)))"
    using assms(4) by (intro write_hyper_params_eq) simp_all
  show ?thesis
    unfolding write_text_report_def c s o using w assms(4) by (simp add: file_write_def)
qed

text \<open>
  The file name that cannot be opened: the call raises before anything is written.
\<close>

lemma write_text_report_not_openable:
  "\<not> openable sys fn \<Longrightarrow>
   write_text_report sys fs fn args_str scores_report_str = Inl (OSError, fs)"
  by (simp add: write_text_report_def open_w_def)

text \<open>
  C8. One line for each configuration entry, then the scores string: the code does not
  do that on an entry whose value prints with a comma followed by a space, with a \<open>)\<close>
  or with \<open>Namespace(\<close>. The list value \<open>x=[1, 2]\<close> is written as two lines, the tuple value
  \<open>y=(1, 2)\<close> as two lines without its closing bracket, the nested namespace
  \<open>sub=Namespace(a=1)\<close> as \<open>sub=a=1\<close>.
\<close>

theorem write_text_report_splits_entry:
  "write_text_report willing_os Map.empty ''report.txt'' (namespace_str [''x=[1, 2]'']) ''F1=90''
     = Inr [''report.txt'' \<mapsto> ''x=[1'' @ [CHR 0x0A] @ ''2]'' @ [CHR 0x0A] @ ''F1=90'']
   \<and> write_text_report willing_os Map.empty ''report.txt'' (namespace_str [''y=(1, 2)'']) ''F1=90''
     = Inr [''report.txt'' \<mapsto> ''y=(1'' @ [CHR 0x0A] @ ''2'' @ [CHR 0x0A] @ ''F1=90'']
   \<and> write_text_report willing_os Map.empty ''report.txt''
       (namespace_str [''sub=Namespace(a=1)'']) ''F1=90''
     = Inr [''report.txt'' \<mapsto> ''sub=a=1'' @ [CHR 0x0A] @ ''F1=90'']"
  by (simp add: write_text_report_def namespace_str_def py_split_def file_write_def open_w_def
        willing_os_def)

section \<open>Properties of the loss\<close>

lemma le_sum_list_nonneg:
  "x \<in> set xs \<Longrightarrow> \<forall>y \<in> set xs. 0 \<le> y \<Longrightarrow> (x::real) \<le> sum_list xs"
proof (induction xs)
  case Nil
  then show ?case by simp
next
  case (Cons a xs)
  then have "0 \<le> sum_list xs" by (simp add: sum_list_nonneg)
  with Cons show ?case by auto
qed

lemma le_log_sum_exp:
  assumes "x \<in> set xs"
  shows "x \<le> log_sum_exp xs"
proof -
  define m where "m = largest xs"
  have "exp (x - m) \<in> set (map (\<lambda>y. exp (y - m)) xs)" using assms by simp
  then have "exp (x - m) \<le> (\<Sum>y \<leftarrow> xs. exp (y - m))"
    by (rule le_sum_list_nonneg) simp
  then have "ln (exp (x - m)) \<le> ln (\<Sum>y \<leftarrow> xs. exp (y - m))"
    by (subst ln_le_cancel_iff) (auto intro: less_le_trans [OF exp_gt_zero])
  then show ?thesis by (simp add: log_sum_exp_def m_def Let_def)
qed


lemma first_scores_nth:
  "j < states_num crf \<Longrightarrow>
   first_scores crf emission ! j = transition_table crf ! sos_idx crf ! j + emission ! j"
  by (simp add: first_scores_def)

lemma next_scores_ge:
  assumes "i < states_num crf" and "j < states_num crf"
  shows "score ! i + transition_table crf ! i ! j + emission ! j \<le> next_scores crf score emission ! j"
proof -
  have "score ! i + transition_table crf ! i ! j + emission ! j
          \<in> set (map (\<lambda>i. score ! i + transition_table crf ! i ! j + emission ! j)
                   [0..<states_num crf])"
    using assms(1) by simp
  from le_log_sum_exp [OF this] show ?thesis
    using assms(2) by (simp add: next_scores_def)
qed

lemma length_scores:
  "length (first_scores crf emission) = states_num crf"
  "length (next_scores crf score emission) = states_num crf"
  by (simp_all add: first_scores_def next_scores_def)

lemma gold_le_forward_Some:
  assumes "length tags = length feats" and "length bits = length feats"
    and "\<forall>(tag, valid) \<in> set (zip tags bits). valid \<longrightarrow> tag < states_num crf"
    and "prev < states_num crf" and "length score = states_num crf" and "acc \<le> score ! prev"
  shows "acc + gold_path_from crf prev (zip feats (zip tags bits))
           \<le> final_score (forward_from crf (Some score) (zip feats bits))"
  using assms
proof (induction feats arbitrary: tags bits prev score acc)
  case Nil
  then have "score ! prev \<in> set score" by simp
  from le_log_sum_exp [OF this] Nil show ?case by simp
next
  case (Cons emission feats)
  then obtain tag tags' valid bits' where t: "tags = tag # tags'" and b: "bits = valid # bits'"
    by (metis length_Suc_conv)
  show ?case
  proof (cases valid)
    case True
    with Cons.prems t b have tag: "tag < states_num crf" by simp
    let ?s = "next_scores crf score emission"
    have "acc + (emission ! tag + transition_table crf ! prev ! tag) \<le> ?s ! tag"
      using next_scores_ge [OF Cons.prems(4) tag, of score emission] Cons.prems(6) by simp
    from Cons.IH [of tags' bits' tag ?s, OF _ _ _ tag _ this] Cons.prems t b
    show ?thesis using True by (simp add: length_scores add.assoc)
  next
    case False
    from Cons.IH [of tags' bits' prev score acc] Cons.prems t b
    show ?thesis using False by simp
  qed
qed

lemma gold_le_forward_None:
  assumes "length tags = length feats" and "length bits = length feats"
    and "\<forall>(tag, valid) \<in> set (zip tags bits). valid \<longrightarrow> tag < states_num crf"
  shows "gold_path_from crf (sos_idx crf) (zip feats (zip tags bits))
           \<le> final_score (forward_from crf None (zip feats bits))"
  using assms
proof (induction feats arbitrary: tags bits)
  case Nil
  then show ?case by simp
next
  case (Cons emission feats)
  then obtain tag tags' valid bits' where t: "tags = tag # tags'" and b: "bits = valid # bits'"
    by (metis length_Suc_conv)
  show ?case
  proof (cases valid)
    case True
    with Cons.prems t b have tag: "tag < states_num crf" by simp
    let ?s = "first_scores crf emission"
    have "emission ! tag + transition_table crf ! sos_idx crf ! tag \<le> ?s ! tag"
      by (simp add: first_scores_nth [OF tag])
    from gold_le_forward_Some [of tags' feats bits' crf tag ?s, OF _ _ _ tag _ this] Cons.prems t b
    show ?thesis using True by (simp add: length_scores add.assoc)
  next
    case False
    from Cons.IH [of tags' bits'] Cons.prems t b
    show ?thesis using False by simp
  qed
qed

lemma gold_path_score_le:
  assumes "length gold_tags = length features" and "length mask_row = length features"
    and "\<forall>(tag, valid) \<in> set (zip gold_tags mask_row). valid \<longrightarrow> tag < states_num crf"
  shows "gold_path_score crf features gold_tags mask_row \<le> log_partition crf features mask_row"
  unfolding gold_path_score_def log_partition_def
  using assms by (rule gold_le_forward_None)


lemma zip_drop_middle:
  "length T = length F \<Longrightarrow> length M = length F \<Longrightarrow>
   zip F M = map (\<lambda>(f, t, k). (f, k)) (zip F (zip T M))"
proof (induction F arbitrary: T M)
  case Nil
  then show ?case by simp
next
  case (Cons f F)
  then obtain t T' k M' where "T = t # T'" and "M = k # M'"
    by (metis length_Suc_conv)
  with Cons show ?case by simp
qed

lemma flat_tagger_mask: "get_mask flat_tagger [[7, 8], [9]] = [[True, True], [True, False]]"
  by code_simp

lemma flat_tagger_features: "apply_mask flat_tagger (forward_birnn flat_tagger [[7, 8], [9]])
              (get_mask flat_tagger [[7, 8], [9]])
            = [[[1, 0, 0], [1, 0, 0]], [[1, 0, 0], [0, 0, 0]]]"
  by (simp add: flat_tagger_def max_len_def numeral_2_eq_2)

lemma pad_tags_example: "pad_tags [[0, 0], [0]] = [[0, 0], [0, 1]]"
  by (simp add: pad_tags_def max_len_def)

text \<open>
  C4. For every sequence of a batch whose rows of features, gold tags and mask bits have
  the same length and whose gold tags at valid positions are tags of the layer, the
  gold-path score is at most the log partition function; on a non-empty batch of such
  sequences \<open>get_loss\<close> returns a loss, and the loss is not negative. Scores are real
  numbers here, so the inequality is exact.
\<close>

theorem get_loss_nonneg:
  assumes "features_rnn = apply_mask m (forward_birnn m ws) (get_mask m ws)"
    and "targets = items2tensor tags"
    and "mask_tensor = get_mask m ws"
    and "features_rnn \<noteq> []"
    and "length targets = length features_rnn"
    and "length mask_tensor = length features_rnn"
    and "list_all (\<lambda>(f, t, k). length t = length f \<and> length k = length f
            \<and> list_all (\<lambda>(tag, valid). valid \<longrightarrow> tag < states_num crf) (zip t k))
           (zip features_rnn (zip targets mask_tensor))"
  shows "list_all (\<lambda>(f, t, k). gold_path_score crf f t k \<le> log_partition crf f k)
           (zip features_rnn (zip targets mask_tensor))
       \<and> (\<exists>loss. get_loss m crf items2tensor ws tags = Inr loss \<and> 0 \<le> loss)"
proof -
  let ?Z = "zip features_rnn (zip targets mask_tensor)"
  have each: "gold_path_score crf f t k \<le> log_partition crf f k" if "(f, t, k) \<in> set ?Z" for f t k
  proof -
    from that assms(7) have "length t = length f" and "length k = length f"
      and "\<forall>(tag, valid) \<in> set (zip t k). valid \<longrightarrow> tag < states_num crf"
      by (auto simp: list_all_iff)
    then show ?thesis by (rule gold_path_score_le)
  qed
  then have first: "list_all (\<lambda>(f, t, k). gold_path_score crf f t k \<le> log_partition crf f k) ?Z"
    by (auto simp: list_all_iff)
  have num: "numerator crf features_rnn targets mask_tensor
               = Inr (map (\<lambda>(f, t, k). gold_path_score crf f t k) ?Z)"
    using assms(4-6) by (simp add: numerator_def)
  have den: "denominator crf features_rnn mask_tensor
               = Inr (map (\<lambda>(f, t, k). log_partition crf f k) ?Z)"
  proof -
    have "zip features_rnn mask_tensor = map (\<lambda>(f, t, k). (f, k)) ?Z"
      using assms(5,6) by (intro zip_drop_middle) simp_all
    then show ?thesis
      using assms(4-6) by (simp add: denominator_def case_prod_beta comp_def)
  qed
  let ?d = "map (\<lambda>(f, t, k). gold_path_score crf f t k - log_partition crf f k) ?Z"
  have diff: "map (\<lambda>(a, b). a - b)
                (zip (map (\<lambda>(f, t, k). gold_path_score crf f t k) ?Z)
                     (map (\<lambda>(f, t, k). log_partition crf f k) ?Z)) = ?d"
    by (simp add: zip_map_map zip_same_conv_map case_prod_beta comp_def)
  have loss: "get_loss m crf items2tensor ws tags = Inr (- mean ?d)"
    using num den diff assms(1-3) by (simp add: get_loss_def Let_def)
  have "sum_list ?d \<le> 0"
    using each by (intro sum_list_nonpos) auto
  then have "mean ?d \<le> 0"
    by (simp add: mean_def divide_le_0_iff)
  with loss first show ?thesis by simp
qed

theorem get_loss_nonneg_witness:
  "apply_mask flat_tagger (forward_birnn flat_tagger [[7, 8], [9]]) (get_mask flat_tagger [[7, 8], [9]])
     = [[[1, 0, 0], [1, 0, 0]], [[1, 0, 0], [0, 0, 0]]]
   \<and> pad_tags [[0, 0], [0]] = [[0, 0], [0, 1]]
   \<and> get_mask flat_tagger [[7, 8], [9]] = [[True, True], [True, False]]
   \<and> gold_path_score flat_crf [[1, 0, 0], [0, 0, 0]] [0, 1] [True, False]
       \<le> log_partition flat_crf [[1, 0, 0], [0, 0, 0]] [True, False]
   \<and> (\<exists>loss. get_loss flat_tagger flat_crf pad_tags [[7, 8], [9]] [[0, 0], [0]] = Inr loss \<and> 0 \<le> loss)"
proof -
  have st: "states_num flat_crf = 3" by (simp add: flat_crf_def)
  have sh: "list_all (\<lambda>(f, t, k). length t = length f \<and> length k = length f
            \<and> list_all (\<lambda>(tag, valid). valid \<longrightarrow> tag < states_num flat_crf) (zip t k))
           (zip [[[1, 0, 0], [1, 0, 0]], [[1, 0, 0], [0, 0, 0::real]]]
              (zip [[0, 0], [0, 1]] [[True, True], [True, False]]))"
    by (simp add: st)
  have c: "list_all (\<lambda>(f, t, k). gold_path_score flat_crf f t k \<le> log_partition flat_crf f k)
           (zip [[[1, 0, 0], [1, 0, 0]], [[1, 0, 0], [0, 0, 0]]]
              (zip [[0, 0], [0, 1]] [[True, True], [True, False]]))
       \<and> (\<exists>loss. get_loss flat_tagger flat_crf pad_tags [[7, 8], [9]] [[0, 0], [0]] = Inr loss \<and> 0 \<le> loss)"
  proof (rule get_loss_nonneg [where m = flat_tagger and crf = flat_crf and items2tensor = pad_tags
          and ws = "[[7, 8], [9]]" and tags = "[[0, 0], [0]]"
          and features_rnn = "[[[1, 0, 0], [1, 0, 0]], [[1, 0, 0], [0, 0, 0]]]"
          and targets = "[[0, 0], [0, 1]]" and mask_tensor = "[[True, True], [True, False]]"])
    show "[[[1, 0, 0], [1, 0, 0]], [[1, 0, 0], [0, 0, 0]]]
            = apply_mask flat_tagger (forward_birnn flat_tagger [[7, 8], [9]])
                (get_mask flat_tagger [[7, 8], [9]])"
      by (rule flat_tagger_features [symmetric])
    show "[[0, 0], [0, 1]] = pad_tags [[0, 0], [0]]" by (rule pad_tags_example [symmetric])
    show "[[True, True], [True, False]] = get_mask flat_tagger [[7, 8], [9]]"
      by (rule flat_tagger_mask [symmetric])
    show "list_all (\<lambda>(f, t, k). length t = length f \<and> length k = length f
            \<and> list_all (\<lambda>(tag, valid). valid \<longrightarrow> tag < states_num flat_crf) (zip t k))
           (zip [[[1, 0, 0], [1, 0, 0]], [[1, 0, 0], [0, 0, 0::real]]]
              (zip [[0, 0], [0, 1]] [[True, True], [True, False]]))"
      by (rule sh)
  qed simp_all
  then have "gold_path_score flat_crf [[1, 0, 0], [0, 0, 0]] [0, 1] [True, False]
       \<le> log_partition flat_crf [[1, 0, 0], [0, 0, 0]] [True, False]"
    by (simp only: zip_Cons_Cons list.pred_inject(2) case_prod_conv)
  with c flat_tagger_features pad_tags_example flat_tagger_mask show ?thesis by (simp only: simp_thms)
qed

end
